theory Spec2Isabelle
  imports Main "HOL-Library.Word" "HOL-Library.Sublist"
begin

section \<open>Strings, bytes and UTF-8\<close>

text \<open>
  A Python \<open>str\<close> is a sequence of Unicode code points, and \<open>len(s.encode('utf-8'))\<close>
  counts bytes, so the two are kept apart: a string is a list of code points (every
  Python string holds code points below \<open>0x110000\<close> only), a byte string a list of
  8-bit words. String literals of the source are written \<open>lit ''...''\<close>.
\<close>

type_synonym codepoint = nat
type_synonym str = "codepoint list"
type_synonym byte = "8 word"
type_synonym bytes = "byte list"

definition lit :: "string \<Rightarrow> str" where
  "lit s = map of_char s"

text \<open>
  The exceptions that the writer or the library calls it makes can raise. The size error
  carries its message, as the Python exception does.
\<close>

datatype error =
    CodeOwnersFileSizeError str
  | UnicodeEncodeError
  | FileNotFoundError
  | NotADirectoryError
  | IsADirectoryError
  | FileExistsError

text \<open>
  \<open>str.encode('utf-8')\<close>: one to four bytes for each code point; a surrogate
  (\<open>U+D800\<close> to \<open>U+DFFF\<close>), which a Python string may hold, is refused with
  \<open>UnicodeEncodeError\<close>.
\<close>

definition utf8_char :: "codepoint \<Rightarrow> error + bytes" where
  "utf8_char c =
     (if c < 0x80 then Inr [of_nat c]
      else if c < 0x800 then Inr [of_nat (0xC0 + c div 64), of_nat (0x80 + c mod 64)]
      else if 0xD800 \<le> c \<and> c \<le> 0xDFFF then Inl UnicodeEncodeError
      else if c < 0x10000 then
        Inr [of_nat (0xE0 + c div 4096), of_nat (0x80 + (c div 64) mod 64),
             of_nat (0x80 + c mod 64)]
      else
        Inr [of_nat (0xF0 + c div 262144), of_nat (0x80 + (c div 4096) mod 64),
             of_nat (0x80 + (c div 64) mod 64), of_nat (0x80 + c mod 64)])"

fun utf8_encode :: "str \<Rightarrow> error + bytes" where
  "utf8_encode [] = Inr []"
| "utf8_encode (c # cs) =
     (case utf8_char c of
        Inl e \<Rightarrow> Inl e
      | Inr b \<Rightarrow> (case utf8_encode cs of Inl e \<Rightarrow> Inl e | Inr bs \<Rightarrow> Inr (b @ bs)))"

text \<open>\<open>sep.join(parts)\<close> of Python.\<close>

fun join :: "str \<Rightarrow> str list \<Rightarrow> str" where
  "join sep [] = []"
| "join sep [x] = x"
| "join sep (x # y # ys) = x @ sep @ join sep (y # ys)"

section \<open>Data model\<close>

text \<open>
  Modelled from the spec: \<open>models.py\<close> is not among the sources. The spec gives an
  owner a raw string form (its classification as user, team or email is derived from
  the string and plays no part in writing); the string form of an owner, \<open>str(owner)\<close>
  in the writer, is that raw string.
\<close>

datatype CodeOwner = CodeOwner (raw: str)

definition owner_str :: "CodeOwner \<Rightarrow> str" where
  "owner_str owner = raw owner"

text \<open>
  Modelled from the spec: the entry types, the entry and the document of the missing
  \<open>models.py\<close>. An entry has a type, a pattern that may be null, a sequence of owners
  and a comment that may be null; a document is the ordered sequence of its entries.
  The tests build entries with exactly these fields.
\<close>

datatype EntryType = BLANK | COMMENT | RULE

record CodeOwnersEntry =
  type :: EntryType
  pattern :: "str option"
  owners :: "CodeOwner list"
  comment :: "str option"

record CodeOwnersFile =
  entries :: "CodeOwnersEntry list"

section \<open>Writer\<close>

definition MAX_FILE_SIZE_BYTES :: nat where
  "MAX_FILE_SIZE_BYTES = 3 * 1024 * 1024"

text \<open>
  Decimal digits of a natural number, and \<open>f"{size_mb:.2f}"\<close> for
  \<open>size_mb = size_bytes / (1024 * 1024)\<close>. The quotient by \<open>2^20\<close> is exact in binary
  floating point for every size below \<open>2^53\<close>, and Python prints the exact value of the
  float rounded to two decimals, ties to even; the model computes that rounding on the
  rational \<open>size_bytes / 2^20\<close> in integer arithmetic.
\<close>

fun str_of_nat :: "nat \<Rightarrow> str" where
  "str_of_nat n = (if n < 10 then [48 + n] else str_of_nat (n div 10) @ [48 + n mod 10])"

definition round_half_even :: "nat \<Rightarrow> nat \<Rightarrow> nat" where
  "round_half_even num den =
     (let fl = num div den; r = num mod den
      in if 2 * r < den then fl
         else if den < 2 * r then fl + 1
         else if even fl then fl else fl + 1)"

definition format_2f :: "nat \<Rightarrow> str" where
  "format_2f size_bytes =
     (let q = round_half_even (size_bytes * 100) (1024 * 1024)
      in str_of_nat (q div 100) @ lit ''.'' @ [48 + (q mod 100) div 10, 48 + q mod 10])"

definition size_error_message :: "nat \<Rightarrow> str" where
  "size_error_message size_bytes =
     lit ''CODEOWNERS file size ('' @ format_2f size_bytes @
     lit '' MB) exceeds GitHub's 3 MB limit. '' @
     lit ''The file must be under 3 MB to be processed by GitHub.''"

definition validate_file_size :: "str \<Rightarrow> error + unit" where
  "validate_file_size content =
     (case utf8_encode content of
        Inl e \<Rightarrow> Inl e
      | Inr bs \<Rightarrow>
          (let size_bytes = length bs
           in if size_bytes > MAX_FILE_SIZE_BYTES
              then Inl (CodeOwnersFileSizeError (size_error_message size_bytes))
              else Inr ()))"

definition format_entry :: "CodeOwnersEntry \<Rightarrow> str" where
  "format_entry entry =
     (if type entry = BLANK then []
      else if type entry = COMMENT then
        (let comment_text = (case comment entry of None \<Rightarrow> [] | Some c \<Rightarrow> c)
         in if comment_text \<noteq> [] then lit ''# '' @ comment_text else lit ''#'')
      else if type entry = RULE then
        (case pattern entry of
           None \<Rightarrow> []
         | Some p \<Rightarrow>
             if p = [] then []
             else
               (let parts = [p] @ map owner_str (owners entry);
                    parts' = (case comment entry of
                                None \<Rightarrow> parts
                              | Some c \<Rightarrow> if c \<noteq> [] then parts @ [lit ''# '' @ c] else parts)
                in join (lit '' '') parts'))
      else [])"

definition write_codeowners :: "CodeOwnersFile \<Rightarrow> bool \<Rightarrow> error + str" where
  "write_codeowners codeowners_file validate_size =
     (let lines = map format_entry (entries codeowners_file);
          content = join (lit [CHR 0x0A]) lines
      in if validate_size
         then (case validate_file_size content of Inl e \<Rightarrow> Inl e | Inr _ \<Rightarrow> Inr content)
         else Inr content)"

text \<open>The text that \<open>write_codeowners\<close> builds before it checks the size.\<close>

abbreviation content_text :: "CodeOwnersFile \<Rightarrow> str" where
  "content_text f \<equiv> join (lit [CHR 0x0A]) (map format_entry (entries f))"

text \<open>
  The reference definition of the formatter as the specification words it, for comparison
  with \<open>format_entry\<close>: a rule \<^emph>\<open>with a pattern\<close> is every rule whose pattern is not
  null, and an inline comment is \<^emph>\<open>present\<close> whenever it is not null.
\<close>

definition format_entry_spec :: "CodeOwnersEntry \<Rightarrow> str" where
  "format_entry_spec entry =
     (case type entry of
        BLANK \<Rightarrow> []
      | COMMENT \<Rightarrow>
          (case comment entry of
             None \<Rightarrow> lit ''#''
           | Some body \<Rightarrow> if body \<noteq> [] then lit ''# '' @ body else lit ''#'')
      | RULE \<Rightarrow>
          (case pattern entry of
             None \<Rightarrow> []
           | Some p \<Rightarrow>
               join (lit '' '')
                 ([p] @ map owner_str (owners entry) @
                  (case comment entry of None \<Rightarrow> [] | Some c \<Rightarrow> [lit ''# '' @ c]))))"

text \<open>
  Reading a decimal numeral back, to state what \<open>str_of_nat\<close> prints.
\<close>

definition decimal_value :: "str \<Rightarrow> nat" where
  "decimal_value ds = foldl (\<lambda>a d. 10 * a + (d - 48)) 0 ds"

text \<open>
  Sample documents for the size boundary: one comment line whose body is \<open>n\<close> letters
  \<open>a\<close>, written as \<open>"# aaa..."\<close> of \<open>n + 2\<close> bytes when \<open>n > 0\<close>.
\<close>

definition comment_only_file :: "nat \<Rightarrow> CodeOwnersFile" where
  "comment_only_file n =
     \<lparr>entries = [\<lparr>type = COMMENT, pattern = None, owners = [],
                  comment = Some (replicate n 97)\<rparr>]\<rparr>"

section \<open>Writing to the filesystem\<close>

text \<open>
  The filesystem as \<open>pathlib\<close> sees it: a path is the list of its components below the
  root (or the working directory), whose parent drops the last component and which is
  its own parent when it has none; each path holds nothing, a directory or a regular file
  with its bytes. The root is always a directory. Links, permissions and other processes
  are left out.
\<close>

datatype node = Dir | File bytes

type_synonym path = "str list"
type_synonym filesystem = "path \<Rightarrow> node option"

definition lookup :: "filesystem \<Rightarrow> path \<Rightarrow> node option" where
  "lookup fs p = (if p = [] then Some Dir else fs p)"

definition parent :: "path \<Rightarrow> path" where
  "parent p = butlast p"

text \<open>
  \<open>Path.mkdir(parents=True, exist_ok=True)\<close>: an existing directory is left alone, an
  existing file is an error; a missing directory is created, after its missing ancestors
  when the first attempt finds no parent. An error leaves the filesystem as it was,
  since it arises before the first directory is made.
\<close>

function mkdir_parents :: "filesystem \<Rightarrow> path \<Rightarrow> error + filesystem" where
  "mkdir_parents fs p =
     (case lookup fs p of
        Some Dir \<Rightarrow> Inr fs
      | Some (File _) \<Rightarrow> Inl FileExistsError
      | None \<Rightarrow>
          (case lookup fs (parent p) of
             Some Dir \<Rightarrow> Inr (fs(p \<mapsto> Dir))
           | Some (File _) \<Rightarrow> Inl NotADirectoryError
           | None \<Rightarrow>
               (case mkdir_parents fs (parent p) of
                  Inl e \<Rightarrow> Inl e
                | Inr fs' \<Rightarrow> Inr (fs'(p \<mapsto> Dir)))))"
  by pat_completeness auto
termination
  by (relation "measure (\<lambda>(fs, p). length p)")
     (auto simp add: lookup_def parent_def split: if_splits)

text \<open>
  \<open>Path.write_text(data, encoding="utf-8")\<close>: opening for writing fails on a directory and
  under a missing parent, and otherwise creates the file or truncates it; the data is
  encoded when it is written, after the file was opened, so an encoding error leaves an
  empty file behind. A newline is written as the line separator of the platform, the
  single byte 10 of POSIX systems, which is the platform modelled.
\<close>

definition write_text :: "filesystem \<Rightarrow> path \<Rightarrow> str \<Rightarrow> (error + unit) \<times> filesystem" where
  "write_text fs p data =
     (case lookup fs p of
        Some Dir \<Rightarrow> (Inl IsADirectoryError, fs)
      | _ \<Rightarrow>
          (case lookup fs (parent p) of
             None \<Rightarrow> (Inl FileNotFoundError, fs)
           | Some (File _) \<Rightarrow> (Inl NotADirectoryError, fs)
           | Some Dir \<Rightarrow>
               (let fs' = fs(p \<mapsto> File [])
                in case utf8_encode data of
                     Inl e \<Rightarrow> (Inl e, fs')
                   | Inr bs \<Rightarrow> (Inr (), fs'(p \<mapsto> File bs)))))"

text \<open>
  The outcome of \<open>write_codeowners_file\<close> is the exception raised, if any, and the
  filesystem that the call leaves behind in either case.
\<close>

definition write_codeowners_file ::
  "filesystem \<Rightarrow> CodeOwnersFile \<Rightarrow> path \<Rightarrow> bool \<Rightarrow> bool \<Rightarrow> (error + unit) \<times> filesystem" where
  "write_codeowners_file fs codeowners_file file_path create_dirs validate_size =
     (case (if create_dirs then mkdir_parents fs (parent file_path) else Inr fs) of
        Inl e \<Rightarrow> (Inl e, fs)
      | Inr fs1 \<Rightarrow>
          (case write_codeowners codeowners_file validate_size of
             Inl e \<Rightarrow> (Inl e, fs1)
           | Inr content \<Rightarrow> write_text fs1 file_path content))"

section \<open>Parser\<close>

text \<open>
  Modelled from the spec: \<open>parser.py\<close> is not among the sources, so the parser follows
  section 4.1 of the specification sentence by sentence. Whitespace, where the
  specification trims it or splits on it, is what the string methods of Python take for
  it.
\<close>

definition is_space :: "codepoint \<Rightarrow> bool" where
  "is_space c =
     (c \<in> {9, 10, 11, 12, 13, 28, 29, 30, 31, 32, 133, 160, 5760, 8232, 8233, 8239, 8287, 12288}
      \<or> 8192 \<le> c \<and> c \<le> 8202)"

text \<open>
  Modelled from the spec: "splits input into lines", of the missing \<open>parse_codeowners\<close>.
  The lines are the pieces between the newline characters (code point 10), so that a
  text of \<open>n\<close> newlines has \<open>n + 1\<close> lines.
\<close>

fun split_at_newlines :: "str \<Rightarrow> str \<Rightarrow> str list" where
  "split_at_newlines cur [] = [cur]"
| "split_at_newlines cur (c # cs) =
     (if c = 10 then cur # split_at_newlines [] cs else split_at_newlines (cur @ [c]) cs)"

definition split_lines :: "str \<Rightarrow> str list" where
  "split_lines text = split_at_newlines [] text"

text \<open>
  Modelled from the spec: "for each line, trims trailing whitespace only", of the missing
  \<open>parse_codeowners\<close>.
\<close>

definition rstrip :: "str \<Rightarrow> str" where
  "rstrip s = rev (dropWhile is_space (rev s))"

text \<open>
  Modelled from the spec: "split on runs of whitespace into tokens", of the missing
  \<open>parse_codeowners\<close>; \<open>cur\<close> is the token being read.
\<close>

fun tokens :: "str \<Rightarrow> str \<Rightarrow> str list" where
  "tokens cur [] = (if cur = [] then [] else [cur])"
| "tokens cur (c # cs) =
     (if is_space c then (if cur = [] then tokens [] cs else cur # tokens [] cs)
      else tokens (cur @ [c]) cs)"

definition split_ws :: "str \<Rightarrow> str list" where
  "split_ws s = tokens [] s"

text \<open>
  Modelled from the spec: a line or a token that starts with \<open>#\<close> (code point 35), and
  what follows "the \<open>#\<close> and one optional following space" (code point 32), of the
  missing \<open>parse_codeowners\<close>.
\<close>

fun starts_hash :: "str \<Rightarrow> bool" where
  "starts_hash [] = False"
| "starts_hash (c # cs) = (c = 35)"

fun after_hash :: "str \<Rightarrow> str" where
  "after_hash [] = []"
| "after_hash (h # []) = []"
| "after_hash (h # c # cs) = (if c = 32 then cs else c # cs)"

text \<open>
  Modelled from the spec: one line to one entry, of the missing \<open>parse_codeowners\<close>. An
  empty line (after the trim) is a BLANK entry. A line whose first non-whitespace
  character is \<open>#\<close> is a COMMENT entry; its body is everything after the \<open>#\<close> and one
  optional following space. Any other line is a RULE entry: the first token is the
  pattern; the tokens before the first one that starts with \<open>#\<close> are the owners; all
  tokens from that one on, rejoined with single spaces, the leading \<open>#\<close> and one
  following space stripped, become the comment, which is absent when there is no such
  token. (A line that is not empty after the trim has a first token; the branch for none
  is never taken.)
\<close>

definition parse_line :: "str \<Rightarrow> CodeOwnersEntry" where
  "parse_line line =
     (let stripped = rstrip line
      in if stripped = [] then \<lparr>type = BLANK, pattern = None, owners = [], comment = None\<rparr>
         else if starts_hash (dropWhile is_space stripped) then
           \<lparr>type = COMMENT, pattern = None, owners = [],
            comment = Some (after_hash (dropWhile is_space stripped))\<rparr>
         else
           (case split_ws stripped of
              [] \<Rightarrow> \<lparr>type = BLANK, pattern = None, owners = [], comment = None\<rparr>
            | pat # rest \<Rightarrow>
                (let owner_tokens = takeWhile (\<lambda>t. \<not> starts_hash t) rest;
                     comment_tokens = dropWhile (\<lambda>t. \<not> starts_hash t) rest
                 in \<lparr>type = RULE, pattern = Some pat, owners = map CodeOwner owner_tokens,
                     comment = (if comment_tokens = [] then None
                                else Some (after_hash (join (lit '' '') comment_tokens)))\<rparr>)))"

text \<open>
  Modelled from the spec: \<open>parse_codeowners(text)\<close> of the missing \<open>parser.py\<close>, one entry
  for each line in order, and \<open>get_rules()\<close> of the missing \<open>models.py\<close>, the RULE entries
  in order.
\<close>

definition parse_codeowners :: "str \<Rightarrow> CodeOwnersFile" where
  "parse_codeowners text = \<lparr>entries = map parse_line (split_lines text)\<rparr>"

definition get_rules :: "CodeOwnersFile \<Rightarrow> CodeOwnersEntry list" where
  "get_rules f = filter (\<lambda>e. type e = RULE) (entries f)"

text \<open>
  Two notions for the round trip. A token is a non-empty string without whitespace. What
  the writer makes of an entry, seen through the parser: a rule whose inline comment is
  the empty string is written without a comment.
\<close>

definition is_word :: "str \<Rightarrow> bool" where
  "is_word t = (t \<noteq> [] \<and> (\<forall>c\<in>set t. \<not> is_space c))"

definition drop_empty_comment :: "CodeOwnersEntry \<Rightarrow> CodeOwnersEntry" where
  "drop_empty_comment e =
     (if type e = RULE \<and> comment e = Some [] then e\<lparr>comment := None\<rparr> else e)"

section \<open>Properties\<close>

subsection \<open>Joining and encoding\<close>

lemma join_Cons: "join sep (x # xs) = x @ (if xs = [] then [] else sep @ join sep xs)"
  by (cases xs) simp_all

lemma join_snoc: "join sep (xs @ [x]) = join sep xs @ (if xs = [] then [] else sep) @ x"
  by (induction sep xs rule: join.induct) (simp_all add: join_Cons)

lemma count_join:
  "count_list (join sep ls) c =
     sum_list (map (\<lambda>l. count_list l c) ls) + (length ls - 1) * count_list sep c"
  by (induction sep ls rule: join.induct) simp_all

lemma utf8_encode_append:
  "utf8_encode (a @ b) =
     (case utf8_encode a of Inl e \<Rightarrow> Inl e
      | Inr x \<Rightarrow> (case utf8_encode b of Inl e \<Rightarrow> Inl e | Inr y \<Rightarrow> Inr (x @ y)))"
  by (induction a) (auto split: sum.splits)

lemma utf8_encode_replicate_ascii:
  "c < 128 \<Longrightarrow> utf8_encode (replicate n c) = Inr (replicate n (of_nat c))"
  by (induction n) (simp_all add: utf8_char_def)

subsection \<open>The formatter\<close>

text \<open>
  C4, as amended. \<open>format_entry\<close> returns a string for every entry and raises in no case:
  a BLANK entry gives the empty string; a COMMENT entry gives \<open>"# "\<close> and the body when
  the body is not empty, and the bare \<open>"#"\<close> when it is empty or null; a RULE entry whose
  pattern is null or the empty string gives the empty string; a RULE entry with a
  non-empty pattern gives the pattern, then the string form of each owner in order, then
  \<open>"# "\<close> and the comment when the inline comment is neither null nor empty, joined with
  single spaces.
\<close>

theorem format_entry_four_cases:
  "format_entry \<lparr>type = BLANK, pattern = p, owners = os, comment = c\<rparr> = []
   \<and> format_entry \<lparr>type = COMMENT, pattern = p, owners = os, comment = Some (y # ys)\<rparr>
       = lit ''# '' @ y # ys
   \<and> format_entry \<lparr>type = COMMENT, pattern = p, owners = os, comment = Some []\<rparr> = lit ''#''
   \<and> format_entry \<lparr>type = COMMENT, pattern = p, owners = os, comment = None\<rparr> = lit ''#''
   \<and> format_entry \<lparr>type = RULE, pattern = None, owners = os, comment = c\<rparr> = []
   \<and> format_entry \<lparr>type = RULE, pattern = Some [], owners = os, comment = c\<rparr> = []
   \<and> format_entry \<lparr>type = RULE, pattern = Some (x # xs), owners = os, comment = None\<rparr>
       = join (lit '' '') ((x # xs) # map owner_str os)
   \<and> format_entry \<lparr>type = RULE, pattern = Some (x # xs), owners = os, comment = Some []\<rparr>
       = join (lit '' '') ((x # xs) # map owner_str os)
   \<and> format_entry \<lparr>type = RULE, pattern = Some (x # xs), owners = os, comment = Some (y # ys)\<rparr>
       = join (lit '' '') ((x # xs) # map owner_str os @ [lit ''# '' @ y # ys])"
  by (simp add: format_entry_def)

text \<open>
  C4 as the specification words it fails on the code where a field is present and empty:
  a rule with the empty pattern and one owner is formatted to the empty string, not to
  \<open>" @a"\<close>, and a rule with the empty inline comment is formatted to \<open>"*.py"\<close>, not to
  \<open>"*.py # "\<close>.
\<close>

theorem format_entry_spec_counterexample:
  "format_entry \<lparr>type = RULE, pattern = Some (lit ''''), owners = [CodeOwner (lit ''@a'')], comment = None\<rparr>
     \<noteq> format_entry_spec \<lparr>type = RULE, pattern = Some (lit ''''), owners = [CodeOwner (lit ''@a'')], comment = None\<rparr>
   \<and> format_entry \<lparr>type = RULE, pattern = Some (lit ''*.py''), owners = [], comment = Some (lit '''')\<rparr>
     \<noteq> format_entry_spec \<lparr>type = RULE, pattern = Some (lit ''*.py''), owners = [], comment = Some (lit '''')\<rparr>"
  by (simp add: format_entry_def format_entry_spec_def lit_def owner_str_def)

text \<open>
  C10. The formatter treats empty strings like absent values: a RULE entry whose pattern
  is the empty string is formatted to the empty string, exactly like the same entry with
  a null pattern, and a RULE entry with a non-empty pattern and the empty inline comment
  is formatted like the same rule with no comment, with no \<open>"#"\<close> part.
\<close>

theorem format_entry_empty_as_absent:
  "format_entry \<lparr>type = RULE, pattern = Some [], owners = os, comment = c\<rparr> = []
   \<and> format_entry \<lparr>type = RULE, pattern = Some [], owners = os, comment = c\<rparr>
       = format_entry \<lparr>type = RULE, pattern = None, owners = os, comment = c\<rparr>
   \<and> format_entry \<lparr>type = RULE, pattern = Some (x # xs), owners = os, comment = Some []\<rparr>
       = format_entry \<lparr>type = RULE, pattern = Some (x # xs), owners = os, comment = None\<rparr>
   \<and> format_entry \<lparr>type = RULE, pattern = Some (x # xs), owners = os, comment = Some []\<rparr>
       = join (lit '' '') ((x # xs) # map owner_str os)"
  by (simp add: format_entry_def)

subsection \<open>The document writer\<close>

lemma validate_file_size_empty: "validate_file_size [] = Inr ()"
  by (simp add: validate_file_size_def MAX_FILE_SIZE_BYTES_def)

text \<open>
  C5, as amended. \<open>write_codeowners\<close> formats every entry in document order with
  \<open>format_entry\<close> and joins the lines with one newline (code point 10) between two
  lines and none after the last; whenever it returns, with or without the size check,
  it returns that text. The text therefore holds one newline for each of the \<open>n - 1\<close>
  separators and, besides, the newlines that the formatted lines hold themselves; the
  empty document gives the empty string.
\<close>

theorem write_codeowners_joins_lines:
  "write_codeowners f False = Inr (join [10] (map format_entry (entries f)))
   \<and> (write_codeowners f True = Inr (join [10] (map format_entry (entries f)))
        \<or> (\<exists>e. write_codeowners f True = Inl e))
   \<and> join [10] (map format_entry (es @ [e]))
       = join [10] (map format_entry es) @ (if es = [] then [] else [10]) @ format_entry e
   \<and> count_list (join [10] (map format_entry (entries f))) 10
       = length (entries f) - 1 + (\<Sum>e\<leftarrow>entries f. count_list (format_entry e) 10)
   \<and> write_codeowners \<lparr>entries = []\<rparr> validate_size = Inr []"
proof -
  have nl: "lit [CHR 0x0A] = [10]" by (simp add: lit_def)
  have a: "write_codeowners f False = Inr (join [10] (map format_entry (entries f)))"
    by (simp add: write_codeowners_def nl)
  have b: "write_codeowners f True = Inr (join [10] (map format_entry (entries f)))
        \<or> (\<exists>e. write_codeowners f True = Inl e)"
    by (simp add: write_codeowners_def nl Let_def split: sum.splits)
  have c: "join [10] (map format_entry (es @ [e]))
       = join [10] (map format_entry es) @ (if es = [] then [] else [10]) @ format_entry e"
    by (simp add: join_snoc)
  have d: "count_list (join [10] (map format_entry (entries f))) 10
       = length (entries f) - 1 + (\<Sum>e\<leftarrow>entries f. count_list (format_entry e) 10)"
    by (simp add: count_join comp_def)
  have e: "write_codeowners \<lparr>entries = []\<rparr> validate_size = Inr []"
    by (simp add: write_codeowners_def validate_file_size_empty)
  from a b c d e show ?thesis by blast
qed

text \<open>
  C5 as stated fails for an entry whose text holds a newline: the document of the single
  comment \<open>"a\nb"\<close> is written as \<open>"# a\nb"\<close>, one newline for one entry.
\<close>

theorem newline_count_counterexample:
  "write_codeowners
     \<lparr>entries = [\<lparr>type = COMMENT, pattern = None, owners = [], comment = Some [97, 10, 98]\<rparr>]\<rparr> True
     = Inr [35, 32, 97, 10, 98]
   \<and> count_list [35, 32, 97, 10, 98] (10::nat)
     \<noteq> length [\<lparr>type = COMMENT, pattern = None, owners = [], comment = Some [97, 10, 98]\<rparr>] - 1"
  by (simp add: write_codeowners_def validate_file_size_def format_entry_def lit_def
      utf8_char_def MAX_FILE_SIZE_BYTES_def)

subsection \<open>The size ceiling\<close>

declare str_of_nat.simps [simp del]

lemma lit_newline: "lit [CHR 0x0A] = [10]"
  by (simp add: lit_def)

lemma write_codeowners_unchecked: "write_codeowners f False = Inr (content_text f)"
  by (simp add: write_codeowners_def)

lemma write_codeowners_checked:
  "write_codeowners f True =
     (case utf8_encode (content_text f) of
        Inl e \<Rightarrow> Inl e
      | Inr bs \<Rightarrow>
          if MAX_FILE_SIZE_BYTES < length bs
          then Inl (CodeOwnersFileSizeError (size_error_message (length bs)))
          else Inr (content_text f))"
  by (simp add: write_codeowners_def validate_file_size_def Let_def split: sum.splits)

lemma comment_only_text:
  "0 < n \<Longrightarrow> content_text (comment_only_file n) = 35 # 32 # replicate n 97"
  by (simp add: comment_only_file_def format_entry_def lit_def)

lemma comment_only_bytes:
  "0 < n \<Longrightarrow> utf8_encode (content_text (comment_only_file n)) = Inr (35 # 32 # replicate n 97)"
  by (simp add: comment_only_text utf8_char_def utf8_encode_replicate_ascii)

lemma utf8_char_error: "utf8_char c = Inl e \<Longrightarrow> e = UnicodeEncodeError"
  by (simp add: utf8_char_def split: if_splits)

lemma utf8_encode_error: "utf8_encode s = Inl e \<Longrightarrow> e = UnicodeEncodeError"
  by (induction s) (auto split: sum.splits dest: utf8_char_error)

text \<open>
  C1. \<open>write_codeowners\<close> raises the size error exactly when \<open>validate_size\<close> is set
  and the UTF-8 encoding of the newline-joined text is longer than 3,145,728 bytes: a
  text of exactly 3,145,728 bytes is returned, one of 3,145,729 bytes is refused, without
  \<open>validate_size\<close> the text is returned whatever its size, and whenever no error is
  raised the joined text is the result.
\<close>
theorem write_codeowners_size_check:
  "((\<exists>msg. write_codeowners f validate_size = Inl (CodeOwnersFileSizeError msg)) \<longleftrightarrow>
      (validate_size \<and> (\<exists>bs. utf8_encode (content_text f) = Inr bs \<and> 3145728 < length bs)))
   \<and> (utf8_encode (content_text f) = Inr bs \<and> length bs = 3145728 \<longrightarrow>
        write_codeowners f validate_size = Inr (content_text f))
   \<and> (utf8_encode (content_text f) = Inr bs \<and> length bs = 3145729 \<longrightarrow>
        (\<exists>msg. write_codeowners f True = Inl (CodeOwnersFileSizeError msg)))
   \<and> write_codeowners f False = Inr (content_text f)
   \<and> ((\<forall>e. write_codeowners f validate_size \<noteq> Inl e) \<longrightarrow>
        write_codeowners f validate_size = Inr (content_text f))"
proof (cases validate_size)
  case False
  then show ?thesis
    by (auto simp add: write_codeowners_unchecked write_codeowners_checked
        MAX_FILE_SIZE_BYTES_def)
next
  case True
  show ?thesis
  proof (cases "utf8_encode (content_text f)")
    case (Inl e)
    with True utf8_encode_error [OF Inl] show ?thesis
      by (simp add: write_codeowners_unchecked write_codeowners_checked)
  next
    case (Inr cs)
    with True show ?thesis
      by (simp add: write_codeowners_unchecked write_codeowners_checked MAX_FILE_SIZE_BYTES_def)
  qed
qed

text \<open>
  The boundary on documents of one comment line: 3,145,726 letters after \<open>"# "\<close> make
  exactly 3,145,728 bytes and are written; one letter more is refused with the check and
  written without it.
\<close>
theorem write_codeowners_size_check_witness:
  "utf8_encode (content_text (comment_only_file 3145726)) = Inr (35 # 32 # replicate 3145726 97)
   \<and> length (35 # 32 # replicate 3145726 (97::byte)) = 3145728
   \<and> write_codeowners (comment_only_file 3145726) True
       = Inr (content_text (comment_only_file 3145726))
   \<and> utf8_encode (content_text (comment_only_file 3145727)) = Inr (35 # 32 # replicate 3145727 97)
   \<and> length (35 # 32 # replicate 3145727 (97::byte)) = 3145729
   \<and> (\<exists>msg. write_codeowners (comment_only_file 3145727) True = Inl (CodeOwnersFileSizeError msg))
   \<and> write_codeowners (comment_only_file 3145727) False
       = Inr (content_text (comment_only_file 3145727))"
proof -
  have a: "utf8_encode (content_text (comment_only_file 3145726))
           = Inr (35 # 32 # replicate 3145726 97)"
    by (rule comment_only_bytes) simp
  have b: "utf8_encode (content_text (comment_only_file 3145727))
           = Inr (35 # 32 # replicate 3145727 97)"
    by (rule comment_only_bytes) simp
  have la: "length (35 # 32 # replicate 3145726 (97::byte)) = 3145728" by simp
  have lb: "length (35 # 32 # replicate 3145727 (97::byte)) = 3145729" by simp
  from write_codeowners_size_check
         [of "comment_only_file 3145726" True "35 # 32 # replicate 3145726 97"] a la
  have c: "write_codeowners (comment_only_file 3145726) True
             = Inr (content_text (comment_only_file 3145726))"
    by blast
  from write_codeowners_size_check
         [of "comment_only_file 3145727" True "35 # 32 # replicate 3145727 97"] b lb
  have d: "(\<exists>msg. write_codeowners (comment_only_file 3145727) True
                   = Inl (CodeOwnersFileSizeError msg))
           \<and> write_codeowners (comment_only_file 3145727) False
               = Inr (content_text (comment_only_file 3145727))"
    by blast
  from a b la lb c d show ?thesis by blast
qed

text \<open>
  C9. The flag \<open>validate_size\<close> decides only whether the size error is raised, never the
  text: without the flag \<open>write_codeowners\<close> raises nothing, and whenever it returns with
  the flag, it returns the same string as without it.
\<close>
theorem validate_size_gates_only_the_error:
  "(\<forall>e. write_codeowners f False \<noteq> Inl e)
   \<and> (write_codeowners f True = Inr w \<longrightarrow> write_codeowners f False = Inr w)"
  by (auto simp add: write_codeowners_unchecked write_codeowners_checked
      split: sum.splits if_splits)

text \<open>A one-rule document is written to the same line with and without the check.\<close>
theorem validate_size_gates_only_the_error_witness:
  "write_codeowners
     \<lparr>entries = [\<lparr>type = RULE, pattern = Some (lit ''*.py''),
                  owners = [CodeOwner (lit ''@python-team'')], comment = None\<rparr>]\<rparr> True
     = Inr (lit ''*.py @python-team'')
   \<and> write_codeowners
     \<lparr>entries = [\<lparr>type = RULE, pattern = Some (lit ''*.py''),
                  owners = [CodeOwner (lit ''@python-team'')], comment = None\<rparr>]\<rparr> False
     = Inr (lit ''*.py @python-team'')"
proof -
  have a: "write_codeowners
     \<lparr>entries = [\<lparr>type = RULE, pattern = Some (lit ''*.py''),
                  owners = [CodeOwner (lit ''@python-team'')], comment = None\<rparr>]\<rparr> True
     = Inr (lit ''*.py @python-team'')"
    by (simp add: write_codeowners_checked format_entry_def lit_def owner_str_def
        utf8_char_def MAX_FILE_SIZE_BYTES_def)
  from a validate_size_gates_only_the_error
         [of "\<lparr>entries = [\<lparr>type = RULE, pattern = Some (lit ''*.py''),
                  owners = [CodeOwner (lit ''@python-team'')], comment = None\<rparr>]\<rparr>"
             "lit ''*.py @python-team''"]
  show ?thesis by blast
qed

subsection \<open>Writing the file\<close>

declare mkdir_parents.simps [simp del]

lemma mkdir_parents_error:
  "mkdir_parents fs d = Inl e \<Longrightarrow> e = FileExistsError \<or> e = NotADirectoryError"
proof (induction fs d rule: mkdir_parents.induct)
  case (1 fs p)
  from "1.prems" show ?case
    by (subst (asm) mkdir_parents.simps)
       (auto split: option.splits node.splits sum.splits dest: "1.IH")
qed

lemma mkdir_parents_frame:
  "mkdir_parents fs d = Inr fs' \<Longrightarrow>
     fs' q = fs q \<or> (fs q = None \<and> fs' q = Some Dir \<and> prefix q d \<and> q \<noteq> [])"
proof (induction fs d arbitrary: fs' rule: mkdir_parents.induct)
  case (1 fs p)
  show ?case
  proof (cases "lookup fs p")
    case (Some n)
    with "1.prems" show ?thesis
      by (subst (asm) mkdir_parents.simps) (auto split: node.splits)
  next
    case None
    then have p: "p \<noteq> []" "fs p = None"
      by (auto simp add: lookup_def split: if_splits)
    show ?thesis
    proof (cases "lookup fs (parent p)")
      case (Some n)
      with None "1.prems" p show ?thesis
        by (subst (asm) mkdir_parents.simps) (auto split: node.splits if_splits)
    next
      case up: None
      with None "1.prems" obtain fs1 where
        m: "mkdir_parents fs (parent p) = Inr fs1" and fs': "fs' = fs1(p \<mapsto> Dir)"
        by (subst (asm) mkdir_parents.simps) (auto split: sum.splits)
      from "1.IH" [OF None up m]
      have ih: "fs1 q = fs q \<or> (fs q = None \<and> fs1 q = Some Dir \<and> prefix q (parent p) \<and> q \<noteq> [])" .
      have pp: "prefix (parent p) p"
        by (simp add: parent_def prefixeq_butlast)
      show ?thesis
      proof (cases "q = p")
        case True
        with p fs' show ?thesis by simp
      next
        case False
        with ih fs' pp show ?thesis
          by (auto dest: prefix_order.trans)
      qed
    qed
  qed
qed

lemma write_text_error:
  "write_text fs p data = (Inl e, fs') \<Longrightarrow> e \<noteq> CodeOwnersFileSizeError msg"
  by (auto simp add: write_text_def Let_def
      split: option.splits node.splits sum.splits dest: utf8_encode_error)

lemma size_error_filesystem:
  assumes "write_codeowners_file fs f p create_dirs validate_size
             = (Inl (CodeOwnersFileSizeError msg), fs')"
  shows "if create_dirs then mkdir_parents fs (parent p) = Inr fs' else fs' = fs"
proof (cases create_dirs)
  case False
  with assms show ?thesis
    by (auto simp add: write_codeowners_file_def split: sum.splits dest: write_text_error)
next
  case True
  with assms show ?thesis
    by (auto simp add: write_codeowners_file_def split: sum.splits
        dest: write_text_error mkdir_parents_error)
qed

lemma not_prefix_parent: "p \<noteq> [] \<Longrightarrow> \<not> prefix p (parent p)"
proof
  assume ne: "p \<noteq> []" and pr: "prefix p (parent p)"
  from pr have "prefix p (butlast p)"
    by (simp only: parent_def)
  from prefix_length_le [OF this] ne show False
    by (cases p rule: rev_cases) simp_all
qed

text \<open>
  C2, as amended. In \<open>write_codeowners_file\<close> the size check is passed before a byte is
  written to any file: when the call raises the size error, no file has been created,
  changed or removed anywhere. The only mutation that can come before the size check is
  the creation of missing parent directories of the path, when \<open>create_dirs\<close> is set;
  without \<open>create_dirs\<close> a size error leaves the filesystem entirely unmodified.
\<close>
theorem size_error_mutates_directories_only:
  assumes "write_codeowners_file fs f p create_dirs validate_size
             = (Inl (CodeOwnersFileSizeError msg), fs')"
  shows "(\<not> create_dirs \<longrightarrow> fs' = fs)
         \<and> (\<forall>q. lookup fs' q = lookup fs q
                \<or> (create_dirs \<and> lookup fs q = None \<and> lookup fs' q = Some Dir
                    \<and> prefix q (parent p)))
         \<and> (\<forall>q bs. lookup fs' q = Some (File bs) \<longleftrightarrow> lookup fs q = Some (File bs))"
proof -
  note s = size_error_filesystem [OF assms]
  have a: "\<not> create_dirs \<longrightarrow> fs' = fs"
    using s by (simp split: if_splits)
  have b: "lookup fs' q = lookup fs q
           \<or> (create_dirs \<and> lookup fs q = None \<and> lookup fs' q = Some Dir
               \<and> prefix q (parent p))" for q
  proof (cases create_dirs)
    case False
    with s show ?thesis by simp
  next
    case True
    with s have "mkdir_parents fs (parent p) = Inr fs'" by simp
    from mkdir_parents_frame [OF this, of q] True show ?thesis
      by (auto simp add: lookup_def)
  qed
  have c: "lookup fs' q = Some (File bs) \<longleftrightarrow> lookup fs q = Some (File bs)" for q bs
    using b [of q] by auto
  from a b c show ?thesis by blast
qed

text \<open>
  C6. If \<open>write_codeowners_file\<close> with \<open>validate_size=True\<close> raises the size error, the path
  holds afterwards what it held before: no file is created there, and a file that existed
  there keeps its old content.
\<close>
theorem size_error_keeps_target_file:
  assumes "write_codeowners_file fs f p create_dirs True
             = (Inl (CodeOwnersFileSizeError msg), fs')"
  shows "lookup fs' p = lookup fs p"
proof (cases create_dirs)
  case False
  with size_error_filesystem [OF assms] show ?thesis by simp
next
  case True
  with size_error_filesystem [OF assms]
  have "mkdir_parents fs (parent p) = Inr fs'" by simp
  from mkdir_parents_frame [OF this, of p] show ?thesis
    by (cases "p = []") (auto simp add: lookup_def dest: not_prefix_parent)
qed

text \<open>
  C7. Whatever the path held before, a call of \<open>write_codeowners_file\<close> that returns
  normally leaves at the path a file that holds exactly the UTF-8 encoding of the text
  that \<open>write_codeowners\<close> returns, and nothing of the old content.
\<close>
theorem normal_return_overwrites_in_full:
  assumes "write_codeowners_file fs f p create_dirs validate_size = (Inr (), fs')"
  shows "\<exists>bs. write_codeowners f validate_size = Inr (content_text f)
              \<and> utf8_encode (content_text f) = Inr bs
              \<and> lookup fs' p = Some (File bs)"
proof -
  from assms obtain fs1 content where
    w: "write_codeowners f validate_size = Inr content" and
    t: "write_text fs1 p content = (Inr (), fs')"
    by (auto simp add: write_codeowners_file_def split: sum.splits)
  from w have c: "content = content_text f"
    by (cases validate_size)
       (auto simp add: write_codeowners_unchecked write_codeowners_checked
        split: sum.splits if_splits)
  from t obtain bs where "utf8_encode content = Inr bs" "p \<noteq> []" "fs' p = Some (File bs)"
    by (auto simp add: write_text_def Let_def lookup_def
        split: option.splits node.splits sum.splits if_splits)
  with w c show ?thesis by (auto simp add: lookup_def)
qed


lemma comment_only_refused:
  "3145727 \<le> n \<Longrightarrow>
     write_codeowners (comment_only_file n) True
       = Inl (CodeOwnersFileSizeError (size_error_message (n + 2)))"
  by (simp add: write_codeowners_checked comment_only_bytes MAX_FILE_SIZE_BYTES_def)

text \<open>
  C2 as stated fails: writing an oversized document to \<open>nested/CODEOWNERS\<close> in an empty
  filesystem with \<open>create_dirs\<close> raises the size error after the directory \<open>nested\<close>
  has been made, since the source creates the parent directories before it calls
  \<open>write_codeowners\<close>.
\<close>
theorem directory_created_before_size_error:
  "write_codeowners_file Map.empty (comment_only_file 3145727)
       [lit ''nested'', lit ''CODEOWNERS''] True True
     = (Inl (CodeOwnersFileSizeError (size_error_message 3145729)),
        Map.empty([lit ''nested''] \<mapsto> Dir))
   \<and> lookup (Map.empty([lit ''nested''] \<mapsto> Dir)) [lit ''nested''] = Some Dir
   \<and> lookup Map.empty [lit ''nested''] = None"
proof -
  have m: "mkdir_parents Map.empty [lit ''nested''] = Inr (Map.empty([lit ''nested''] \<mapsto> Dir))"
    by (simp add: mkdir_parents.simps lookup_def parent_def lit_def)
  have w: "write_codeowners (comment_only_file 3145727) True
             = Inl (CodeOwnersFileSizeError (size_error_message 3145729))"
    using comment_only_refused [of 3145727] by simp
  have p: "parent [lit ''nested'', lit ''CODEOWNERS''] = [lit ''nested'']"
    by (simp add: parent_def)
  show ?thesis
    by (simp add: write_codeowners_file_def p m w) (simp add: lookup_def lit_def)
qed

text \<open>
  The same call shows all that a size error can leave behind, the new directory; without
  \<open>create_dirs\<close> the empty filesystem stays empty.
\<close>
theorem size_error_mutates_directories_only_witness:
  "write_codeowners_file Map.empty (comment_only_file 3145727)
       [lit ''nested'', lit ''CODEOWNERS''] True True
     = (Inl (CodeOwnersFileSizeError (size_error_message 3145729)),
        Map.empty([lit ''nested''] \<mapsto> Dir))
   \<and> (\<forall>q. lookup (Map.empty([lit ''nested''] \<mapsto> Dir)) q = lookup Map.empty q
          \<or> (lookup Map.empty q = None
              \<and> lookup (Map.empty([lit ''nested''] \<mapsto> Dir)) q = Some Dir
              \<and> prefix q [lit ''nested'']))
   \<and> write_codeowners_file Map.empty (comment_only_file 3145727)
       [lit ''CODEOWNERS''] False True
     = (Inl (CodeOwnersFileSizeError (size_error_message 3145729)), Map.empty)"
proof -
  have m: "mkdir_parents Map.empty [lit ''nested''] = Inr (Map.empty([lit ''nested''] \<mapsto> Dir))"
    by (simp add: mkdir_parents.simps lookup_def parent_def lit_def)
  have w: "write_codeowners (comment_only_file 3145727) True
             = Inl (CodeOwnersFileSizeError (size_error_message 3145729))"
    using comment_only_refused [of 3145727] by simp
  have p: "parent [lit ''nested'', lit ''CODEOWNERS''] = [lit ''nested'']"
    by (simp add: parent_def)
  have a: "write_codeowners_file Map.empty (comment_only_file 3145727)
       [lit ''nested'', lit ''CODEOWNERS''] True True
     = (Inl (CodeOwnersFileSizeError (size_error_message 3145729)),
        Map.empty([lit ''nested''] \<mapsto> Dir))"
    by (simp add: write_codeowners_file_def p m w)
  have b: "write_codeowners_file Map.empty (comment_only_file 3145727)
       [lit ''CODEOWNERS''] False True
     = (Inl (CodeOwnersFileSizeError (size_error_message 3145729)), Map.empty)"
    by (simp add: write_codeowners_file_def w)
  from size_error_mutates_directories_only [OF a] p
  have c: "\<forall>q. lookup (Map.empty([lit ''nested''] \<mapsto> Dir)) q = lookup Map.empty q
          \<or> (lookup Map.empty q = None
              \<and> lookup (Map.empty([lit ''nested''] \<mapsto> Dir)) q = Some Dir
              \<and> prefix q [lit ''nested''])"
    by simp
  from a b c show ?thesis by blast
qed

text \<open>An oversized document leaves the three bytes of an existing \<open>CODEOWNERS\<close> in place.\<close>
theorem size_error_keeps_target_file_witness:
  "write_codeowners_file (Map.empty([lit ''CODEOWNERS''] \<mapsto> File [111, 108, 100]))
       (comment_only_file 3145727) [lit ''CODEOWNERS''] True True
     = (Inl (CodeOwnersFileSizeError (size_error_message 3145729)),
        Map.empty([lit ''CODEOWNERS''] \<mapsto> File [111, 108, 100]))
   \<and> lookup (Map.empty([lit ''CODEOWNERS''] \<mapsto> File [111, 108, 100])) [lit ''CODEOWNERS'']
     = Some (File [111, 108, 100])"
proof -
  have w: "write_codeowners (comment_only_file 3145727) True
             = Inl (CodeOwnersFileSizeError (size_error_message 3145729))"
    using comment_only_refused [of 3145727] by simp
  have a: "write_codeowners_file (Map.empty([lit ''CODEOWNERS''] \<mapsto> File [111, 108, 100]))
       (comment_only_file 3145727) [lit ''CODEOWNERS''] True True
     = (Inl (CodeOwnersFileSizeError (size_error_message 3145729)),
        Map.empty([lit ''CODEOWNERS''] \<mapsto> File [111, 108, 100]))"
    by (simp add: write_codeowners_file_def parent_def mkdir_parents.simps lookup_def w)
  from size_error_keeps_target_file [OF a] a show ?thesis
    by (simp add: lookup_def lit_def)
qed

text \<open>A one-rule document replaces the three bytes of an existing \<open>CODEOWNERS\<close>.\<close>
theorem normal_return_overwrites_in_full_witness:
  "write_codeowners_file (Map.empty([lit ''CODEOWNERS''] \<mapsto> File [111, 108, 100]))
       \<lparr>entries = [\<lparr>type = RULE, pattern = Some (lit ''*.py''),
                    owners = [CodeOwner (lit ''@python-team'')], comment = None\<rparr>]\<rparr>
       [lit ''CODEOWNERS''] True True
     = (Inr (),
        Map.empty([lit ''CODEOWNERS''] \<mapsto> File (map of_nat (lit ''*.py @python-team''))))
   \<and> utf8_encode (lit ''*.py @python-team'') = Inr (map of_nat (lit ''*.py @python-team''))
   \<and> lookup (Map.empty([lit ''CODEOWNERS''] \<mapsto> File (map of_nat (lit ''*.py @python-team''))))
         [lit ''CODEOWNERS'']
     = Some (File (map of_nat (lit ''*.py @python-team'')))"
proof -
  have w: "write_codeowners
       \<lparr>entries = [\<lparr>type = RULE, pattern = Some (lit ''*.py''),
                    owners = [CodeOwner (lit ''@python-team'')], comment = None\<rparr>]\<rparr> True
     = Inr (lit ''*.py @python-team'')"
    by (simp add: write_codeowners_checked format_entry_def lit_def owner_str_def
        utf8_char_def MAX_FILE_SIZE_BYTES_def)
  have u: "utf8_encode (lit ''*.py @python-team'') = Inr (map of_nat (lit ''*.py @python-team''))"
    by (simp add: lit_def utf8_char_def)
  have a: "write_codeowners_file (Map.empty([lit ''CODEOWNERS''] \<mapsto> File [111, 108, 100]))
       \<lparr>entries = [\<lparr>type = RULE, pattern = Some (lit ''*.py''),
                    owners = [CodeOwner (lit ''@python-team'')], comment = None\<rparr>]\<rparr>
       [lit ''CODEOWNERS''] True True
     = (Inr (),
        Map.empty([lit ''CODEOWNERS''] \<mapsto> File (map of_nat (lit ''*.py @python-team''))))"
    by (simp add: write_codeowners_file_def parent_def mkdir_parents.simps lookup_def w
        write_text_def u)
  from normal_return_overwrites_in_full [OF a] a u show ?thesis
    by (simp add: lookup_def lit_def)
qed

subsection \<open>The message of the size error\<close>

lemma str_of_nat_digits: "d \<in> set (str_of_nat n) \<Longrightarrow> 48 \<le> d \<and> d \<le> 57"
proof (induction n rule: str_of_nat.induct)
  case (1 n)
  show ?case
  proof (cases "n < 10")
    case True
    with "1.prems" show ?thesis
      by (subst (asm) str_of_nat.simps) simp
  next
    case False
    have "n mod 10 < 10" by simp
    with False "1.prems" "1.IH" show ?thesis
      by (subst (asm) str_of_nat.simps) auto
  qed
qed

lemma decimal_value_snoc: "decimal_value (ds @ [d]) = 10 * decimal_value ds + (d - 48)"
  by (simp add: decimal_value_def)

lemma decimal_value_str_of_nat: "decimal_value (str_of_nat n) = n"
proof (induction n rule: str_of_nat.induct)
  case (1 n)
  show ?case
  proof (cases "n < 10")
    case True
    then show ?thesis
      by (subst str_of_nat.simps) (simp add: decimal_value_def)
  next
    case False
    with "1.IH" show ?thesis
      by (subst str_of_nat.simps) (simp add: decimal_value_snoc)
  qed
qed

lemma round_half_even_near:
  assumes "0 < den"
  shows "2 * \<bar>int (round_half_even num den) * int den - int num\<bar> \<le> int den"
proof -
  define fl where "fl = num div den"
  define r where "r = num mod den"
  have num: "int num = int fl * int den + int r"
    unfolding fl_def r_def by (metis div_mult_mod_eq of_nat_add of_nat_mult)
  have r: "int r < int den"
    unfolding r_def using assms by simp
  have cases: "round_half_even num den = fl \<and> 2 * r \<le> den
               \<or> round_half_even num den = fl + 1 \<and> den \<le> 2 * r"
    unfolding round_half_even_def fl_def r_def Let_def by auto
  then show ?thesis
  proof
    assume "round_half_even num den = fl \<and> 2 * r \<le> den"
    then have "round_half_even num den = fl" "2 * int r \<le> int den" by auto
    with num show ?thesis by simp
  next
    assume "round_half_even num den = fl + 1 \<and> den \<le> 2 * r"
    then have e: "round_half_even num den = fl + 1" and "int den \<le> 2 * int r" by auto
    have "int (fl + 1) * int den - int num = int den - int r"
      using num by (simp add: algebra_simps)
    with e r \<open>int den \<le> 2 * int r\<close> show ?thesis by simp
  qed
qed

text \<open>
  C8. Whenever \<open>write_codeowners\<close> raises the size error, the message reports the actual
  encoded size in MiB with two decimals and states the 3 MB limit: it reads
  \<open>CODEOWNERS file size (W.DD MB) exceeds GitHub's 3 MB limit. ...\<close>, where \<open>W\<close> is a
  decimal numeral, \<open>DD\<close> two digits, and \<open>W.DD\<close> differs from the number of encoded bytes
  divided by \<open>2^20\<close> by at most half a hundredth.
\<close>
theorem size_error_message_reports_size:
  assumes "write_codeowners f validate_size = Inl (CodeOwnersFileSizeError msg)"
  shows "\<exists>bs q. utf8_encode (content_text f) = Inr bs \<and> 3145728 < length bs
           \<and> msg = lit ''CODEOWNERS file size ('' @ str_of_nat (q div 100) @ lit ''.''
                   @ [48 + q mod 100 div 10, 48 + q mod 10]
                   @ lit '' MB) exceeds GitHub's 3 MB limit. The file must be under 3 MB to be processed by GitHub.''
           \<and> 2 * \<bar>int q * 1048576 - 100 * int (length bs)\<bar> \<le> 1048576
           \<and> decimal_value (str_of_nat (q div 100)) = q div 100
           \<and> (\<forall>d\<in>set (str_of_nat (q div 100)). 48 \<le> d \<and> d \<le> 57)"
proof -
  from assms have v: validate_size
    by (cases validate_size) (simp_all add: write_codeowners_unchecked)
  with assms obtain bs where
    bs: "utf8_encode (content_text f) = Inr bs" "3145728 < length bs" and
    msg: "msg = size_error_message (length bs)"
    by (auto simp add: write_codeowners_checked MAX_FILE_SIZE_BYTES_def
        split: sum.splits if_splits dest: utf8_encode_error)
  define q where "q = round_half_even (length bs * 100) (1024 * 1024)"
  have m: "msg = lit ''CODEOWNERS file size ('' @ str_of_nat (q div 100) @ lit ''.''
                   @ [48 + q mod 100 div 10, 48 + q mod 10]
                   @ lit '' MB) exceeds GitHub's 3 MB limit. The file must be under 3 MB to be processed by GitHub.''"
    unfolding msg size_error_message_def format_2f_def Let_def q_def
    by (simp add: lit_def)
  have "2 * \<bar>int q * int (1024 * 1024) - int (length bs * 100)\<bar> \<le> int (1024 * 1024)"
    unfolding q_def by (rule round_half_even_near) simp
  then have n: "2 * \<bar>int q * 1048576 - 100 * int (length bs)\<bar> \<le> 1048576"
    by simp
  from bs m n show ?thesis
    using decimal_value_str_of_nat str_of_nat_digits by blast
qed

lemma size_error_message_3276800:
  "size_error_message 3276800
     = lit ''CODEOWNERS file size (3.12 MB) exceeds GitHub's 3 MB limit. The file must be under 3 MB to be processed by GitHub.''"
  by (simp add: size_error_message_def format_2f_def round_half_even_def Let_def
      str_of_nat.simps lit_def)

text \<open>
  A document of 3,276,800 bytes, 3.125 MiB, is refused with the size printed as
  \<open>3.12\<close>.
\<close>
theorem size_error_message_reports_size_witness:
  "write_codeowners (comment_only_file 3276798) True
     = Inl (CodeOwnersFileSizeError
         (lit ''CODEOWNERS file size (3.12 MB) exceeds GitHub's 3 MB limit. The file must be under 3 MB to be processed by GitHub.''))
   \<and> (\<exists>bs q. utf8_encode (content_text (comment_only_file 3276798)) = Inr bs
           \<and> 3145728 < length bs
           \<and> lit ''CODEOWNERS file size (3.12 MB) exceeds GitHub's 3 MB limit. The file must be under 3 MB to be processed by GitHub.''
               = lit ''CODEOWNERS file size ('' @ str_of_nat (q div 100) @ lit ''.''
                   @ [48 + q mod 100 div 10, 48 + q mod 10]
                   @ lit '' MB) exceeds GitHub's 3 MB limit. The file must be under 3 MB to be processed by GitHub.''
           \<and> 2 * \<bar>int q * 1048576 - 100 * int (length bs)\<bar> \<le> 1048576)"
proof -
  have w: "write_codeowners (comment_only_file 3276798) True
     = Inl (CodeOwnersFileSizeError
         (lit ''CODEOWNERS file size (3.12 MB) exceeds GitHub's 3 MB limit. The file must be under 3 MB to be processed by GitHub.''))"
    using comment_only_refused [of 3276798] by (simp add: size_error_message_3276800)
  from size_error_message_reports_size [OF w] w show ?thesis
    by blast
qed

subsection \<open>Parsing what was written\<close>

lemma is_space_simps: "is_space 32" "is_space 10" "\<not> is_space 35"
  by (simp_all add: is_space_def)

lemma lit_space: "lit '' '' = [32]"
  by (simp add: lit_def)

lemma lit_hash: "lit ''#'' = [35]" "lit ''# '' = [35, 32]"
  by (simp_all add: lit_def)

lemma split_at_newlines_append:
  "10 \<notin> set l \<Longrightarrow> split_at_newlines cur (l @ s) = split_at_newlines (cur @ l) s"
  by (induction l arbitrary: cur) auto

lemma split_at_newlines_join:
  "\<forall>l\<in>set (l0 # ls). 10 \<notin> set l \<Longrightarrow>
     split_at_newlines cur (join [10] (l0 # ls)) = (cur @ l0) # ls"
proof (induction ls arbitrary: cur l0)
  case Nil
  then show ?case
    using split_at_newlines_append [of l0 cur "[]"] by simp
next
  case (Cons m ls)
  then have "split_at_newlines [] (join [10] (m # ls)) = m # ls"
    by (metis append_Nil list.set_intros(2))
  with Cons.prems show ?case
    by (simp add: split_at_newlines_append)
qed

lemma split_lines_join:
  "ls \<noteq> [] \<Longrightarrow> \<forall>l\<in>set ls. 10 \<notin> set l \<Longrightarrow> split_lines (join [10] ls) = ls"
  by (cases ls) (simp_all add: split_lines_def split_at_newlines_join del: join.simps)

lemma split_at_newlines_no_newline:
  "10 \<notin> set cur \<Longrightarrow> \<forall>l\<in>set (split_at_newlines cur s). 10 \<notin> set l"
proof (induction s arbitrary: cur)
  case Nil
  then show ?case by simp
next
  case (Cons c s)
  show ?case
  proof (cases "c = 10")
    case True
    with Cons.prems Cons.IH [of "[]"] show ?thesis by simp
  next
    case False
    with Cons.prems Cons.IH [of "cur @ [c]"] show ?thesis by simp
  qed
qed

lemma split_at_newlines_nonempty: "split_at_newlines cur s \<noteq> []"
  by (induction s arbitrary: cur) auto

lemma split_lines_no_newline: "l \<in> set (split_lines s) \<Longrightarrow> 10 \<notin> set l"
  using split_at_newlines_no_newline [of "[]" s] by (simp add: split_lines_def)

lemma split_lines_nonempty: "split_lines s \<noteq> []"
  by (simp add: split_lines_def split_at_newlines_nonempty)


text \<open>Tokens: splitting a line that was joined from tokens gives the tokens back.\<close>
lemma tokens_append_word:
  "\<forall>c\<in>set w. \<not> is_space c \<Longrightarrow> tokens cur (w @ s) = tokens (cur @ w) s"
  by (induction w arbitrary: cur) auto

lemma tokens_join:
  "is_word t \<Longrightarrow> \<forall>u\<in>set ts. is_word u \<Longrightarrow> tokens [] (join [32] (t # ts)) = t # ts"
proof (induction ts arbitrary: t)
  case Nil
  then show ?case
    using tokens_append_word [of t "[]" "[]"] by (simp add: is_word_def)
next
  case (Cons u ts)
  then have "tokens [] (join [32] (u # ts)) = u # ts" by simp
  with Cons.prems show ?case
    by (simp add: tokens_append_word is_word_def is_space_simps)
qed

lemma split_ws_join:
  "ts \<noteq> [] \<Longrightarrow> \<forall>u\<in>set ts. is_word u \<Longrightarrow> split_ws (join [32] ts) = ts"
  by (cases ts) (simp_all add: split_ws_def tokens_join del: join.simps)

lemma tokens_words:
  "\<forall>c\<in>set cur. \<not> is_space c \<Longrightarrow> \<forall>t\<in>set (tokens cur s). is_word t"
proof (induction s arbitrary: cur)
  case Nil
  then show ?case by (simp add: is_word_def)
next
  case (Cons c s)
  show ?case
  proof (cases "is_space c")
    case True
    with Cons.prems Cons.IH [of "[]"] show ?thesis by (simp add: is_word_def)
  next
    case False
    with Cons.prems Cons.IH [of "cur @ [c]"] show ?thesis by simp
  qed
qed

lemma split_ws_words: "t \<in> set (split_ws s) \<Longrightarrow> is_word t"
  using tokens_words [of "[]" s] by (simp add: split_ws_def)

lemma tokens_first_starts_hash:
  "cur \<noteq> [] \<Longrightarrow> tokens cur s = p # rest \<Longrightarrow> starts_hash p = starts_hash cur"
proof (induction s arbitrary: cur)
  case Nil
  then show ?case by simp
next
  case (Cons c s)
  show ?case
  proof (cases "is_space c")
    case True
    with Cons.prems show ?thesis by simp
  next
    case False
    with Cons.prems have "tokens (cur @ [c]) s = p # rest" by simp
    from Cons.IH [OF _ this] have "starts_hash p = starts_hash (cur @ [c])" by simp
    also from Cons.prems(1) have "\<dots> = starts_hash cur" by (cases cur) simp_all
    finally show ?thesis .
  qed
qed

lemma split_ws_first_starts_hash:
  "split_ws s = p # rest \<Longrightarrow> starts_hash p = starts_hash (dropWhile is_space s)"
proof (induction s)
  case Nil
  then show ?case by (simp add: split_ws_def)
next
  case (Cons c s)
  show ?case
  proof (cases "is_space c")
    case True
    with Cons show ?thesis by (simp add: split_ws_def)
  next
    case False
    with Cons.prems have "tokens [c] s = p # rest" by (simp add: split_ws_def)
    from tokens_first_starts_hash [OF _ this] False show ?thesis by simp
  qed
qed

lemma rstrip_id: "s \<noteq> [] \<Longrightarrow> \<not> is_space (last s) \<Longrightarrow> rstrip s = s"
  by (cases s rule: rev_cases) (simp_all add: rstrip_def)

lemma rstrip_last: "rstrip l \<noteq> [] \<Longrightarrow> \<not> is_space (last (rstrip l))"
proof -
  assume a: "rstrip l \<noteq> []"
  then have "dropWhile is_space (rev l) \<noteq> []" by (simp add: rstrip_def)
  then have "\<not> is_space (hd (dropWhile is_space (rev l)))" by (rule hd_dropWhile)
  with a show ?thesis by (simp add: rstrip_def last_rev)
qed

lemma last_dropWhile: "dropWhile P s \<noteq> [] \<Longrightarrow> last (dropWhile P s) = last s"
  by (induction s) (auto split: if_splits)

lemma after_hash_last: "after_hash u \<noteq> [] \<Longrightarrow> last (after_hash u) = last u"
  by (induction u rule: after_hash.induct) (auto split: if_splits)

lemma join_Cons_space:
  "join [32] (t # ts) = t @ (if ts = [] then [] else 32 # join [32] ts)"
  by (cases ts) simp_all

lemma join_words:
  "is_word t \<Longrightarrow> \<forall>u\<in>set ts. is_word u \<Longrightarrow>
     join [32] (t # ts) \<noteq> [] \<and> \<not> is_space (last (join [32] (t # ts)))
     \<and> \<not> is_space (hd (join [32] (t # ts)))
     \<and> starts_hash (join [32] (t # ts)) = starts_hash t"
proof (induction ts arbitrary: t)
  case Nil
  then show ?case by (cases t) (auto simp add: is_word_def)
next
  case (Cons u ts)
  from Cons.IH [of u] Cons.prems
  have ih: "join [32] (u # ts) \<noteq> []" "\<not> is_space (last (join [32] (u # ts)))" by simp_all
  from Cons.prems(1) obtain c r where t: "t = c # r" "\<not> is_space c"
    by (cases t) (auto simp add: is_word_def)
  have j: "join [32] (t # u # ts) = t @ 32 # join [32] (u # ts)" by simp
  from ih t show ?case unfolding j by simp
qed


text \<open>Parsing a formatted comment line and a formatted rule line.\<close>
lemma join_hash_comment:
  "ts \<noteq> [] \<Longrightarrow> join [32] (xs @ [[35, 32] @ join [32] ts]) = join [32] (xs @ [35] # ts)"
proof (induction xs)
  case Nil
  then show ?case by (simp add: join_Cons_space)
next
  case (Cons x xs)
  then show ?case by (simp add: join_Cons_space del: join.simps)
qed

lemma after_hash_join:
  assumes "is_word h" "starts_hash h" "\<forall>u\<in>set cs. is_word u"
  shows "after_hash (join [32] (h # cs)) = join [32] (if tl h = [] then cs else tl h # cs)"
proof -
  from assms(1,2) obtain h' where h: "h = 35 # h'"
    by (cases h) (auto simp add: is_word_def)
  show ?thesis
  proof (cases h')
    case Nil
    with h show ?thesis by (cases cs) simp_all
  next
    case (Cons c r)
    with h assms(1) have "c \<noteq> 32"
      by (auto simp add: is_word_def is_space_simps)
    with h Cons show ?thesis by (simp add: join_Cons_space del: join.simps)
  qed
qed

lemma tl_word: "is_word h \<Longrightarrow> tl h \<noteq> [] \<Longrightarrow> is_word (tl h)"
  by (cases h) (auto simp add: is_word_def)

lemma parse_line_joined_tokens:
  assumes "is_word pat" "\<not> starts_hash pat" "\<forall>u\<in>set rest. is_word u"
  shows "parse_line (join [32] (pat # rest)) =
           \<lparr>type = RULE, pattern = Some pat,
            owners = map CodeOwner (takeWhile (\<lambda>t. \<not> starts_hash t) rest),
            comment = (if dropWhile (\<lambda>t. \<not> starts_hash t) rest = [] then None
                       else Some (after_hash
                              (join [32] (dropWhile (\<lambda>t. \<not> starts_hash t) rest))))\<rparr>"
proof -
  define L where "L = join [32] (pat # rest)"
  from join_words [OF assms(1,3)] assms(2)
  have L: "L \<noteq> []" "\<not> is_space (last L)" "\<not> is_space (hd L)" "\<not> starts_hash L"
    by (simp_all add: L_def)
  have r: "rstrip L = L"
    using L by (simp add: rstrip_id)
  have d: "dropWhile is_space L = L"
    using L by (cases L) simp_all
  have s: "split_ws L = pat # rest"
    unfolding L_def using assms by (intro split_ws_join) simp_all
  show ?thesis
    unfolding L_def [symmetric] parse_line_def
    by (simp add: r d s L lit_space Let_def)
qed

lemma parse_line_empty:
  "parse_line [] = \<lparr>type = BLANK, pattern = None, owners = [], comment = None\<rparr>"
  by (simp add: parse_line_def rstrip_def)

lemma reparse_comment:
  assumes "b = [] \<or> \<not> is_space (last b)"
  shows "parse_line (format_entry \<lparr>type = COMMENT, pattern = None, owners = [], comment = Some b\<rparr>)
         = \<lparr>type = COMMENT, pattern = None, owners = [], comment = Some b\<rparr>"
proof (cases "b = []")
  case True
  have "rstrip [35] = [35]"
    by (simp add: rstrip_id is_space_simps)
  with True show ?thesis
    by (simp add: format_entry_def lit_hash parse_line_def is_space_simps)
next
  case False
  with assms have "rstrip (35 # 32 # b) = 35 # 32 # b"
    by (simp add: rstrip_id)
  with False show ?thesis
    by (simp add: format_entry_def lit_hash parse_line_def is_space_simps)
qed

lemma reparse_rule:
  assumes "is_word pat" "\<not> starts_hash pat" "\<forall>u\<in>set own. is_word u \<and> \<not> starts_hash u"
    and "c = None \<or> c = Some [] \<or> (\<exists>ts. ts \<noteq> [] \<and> (\<forall>t\<in>set ts. is_word t) \<and> c = Some (join [32] ts))"
  shows "parse_line (format_entry \<lparr>type = RULE, pattern = Some pat, owners = map CodeOwner own, comment = c\<rparr>)
         = drop_empty_comment \<lparr>type = RULE, pattern = Some pat, owners = map CodeOwner own, comment = c\<rparr>"
proof -
  from assms(1) have pat: "pat \<noteq> []" by (simp add: is_word_def)
  have own: "map owner_str (map CodeOwner own) = own"
    by (simp add: comp_def owner_str_def)
  have tw: "takeWhile (\<lambda>t. \<not> starts_hash t) own = own"
    using assms(3) by simp
  have dw: "dropWhile (\<lambda>t. \<not> starts_hash t) own = []"
    using assms(3) by simp
  from assms(4) consider (none) "c = None \<or> c = Some []"
    | (some) ts where "ts \<noteq> []" "\<forall>t\<in>set ts. is_word t" "c = Some (join [32] ts)"
    by blast
  then show ?thesis
  proof cases
    case none
    then have "format_entry \<lparr>type = RULE, pattern = Some pat, owners = map CodeOwner own, comment = c\<rparr>
               = join [32] (pat # own)"
      using pat own by (auto simp add: format_entry_def lit_space)
    moreover have "parse_line (join [32] (pat # own))
               = \<lparr>type = RULE, pattern = Some pat, owners = map CodeOwner own, comment = None\<rparr>"
      using assms(1,2,3) by (subst parse_line_joined_tokens) (simp_all add: tw dw)
    ultimately show ?thesis
      using none by (auto simp add: drop_empty_comment_def)
  next
    case some
    from some(1,2) have ne: "join [32] ts \<noteq> []"
      using join_words [of "hd ts" "tl ts"] by (cases ts) simp_all
    have w35: "is_word [35]" "starts_hash [35]"
      by (simp_all add: is_word_def is_space_simps)
    have "format_entry \<lparr>type = RULE, pattern = Some pat, owners = map CodeOwner own, comment = c\<rparr>
               = join [32] ((pat # own) @ [[35, 32] @ join [32] ts])"
      using pat own ne some(3) by (simp add: format_entry_def lit_space lit_hash)
    also have "\<dots> = join [32] (pat # (own @ [35] # ts))"
      using join_hash_comment [OF some(1), of "pat # own"] by simp
    finally have f: "format_entry \<lparr>type = RULE, pattern = Some pat, owners = map CodeOwner own, comment = c\<rparr>
               = join [32] (pat # (own @ [35] # ts))" .
    have tw': "takeWhile (\<lambda>t. \<not> starts_hash t) (own @ [35] # ts) = own"
      using assms(3) by simp
    have dw': "dropWhile (\<lambda>t. \<not> starts_hash t) (own @ [35] # ts) = [35] # ts"
      using assms(3) by simp
    have ah: "after_hash (join [32] ([35] # ts)) = join [32] ts"
      using after_hash_join [OF w35 some(2)] by simp
    have "parse_line (join [32] (pat # (own @ [35] # ts)))
           = \<lparr>type = RULE, pattern = Some pat, owners = map CodeOwner own,
              comment = Some (join [32] ts)\<rparr>"
      using assms(1,2,3) some(2) w35(1)
      by (subst parse_line_joined_tokens) (auto simp add: tw' dw' ah)
    with f some(3) ne show ?thesis
      by (simp add: drop_empty_comment_def)
  qed
qed


lemma set_after_hash: "set (after_hash u) \<subseteq> set u"
  by (induction u rule: after_hash.induct) auto

lemma set_rstrip: "set (rstrip l) \<subseteq> set l"
  by (auto simp add: rstrip_def dest: set_dropWhileD)

text \<open>
  Every parsed line is a blank entry, a comment whose body does not end in whitespace, or
  a rule made of tokens whose comment, if any, is empty or a sequence of tokens joined by
  single spaces.
\<close>
lemma parse_line_shape:
  obtains (blank) "parse_line l = \<lparr>type = BLANK, pattern = None, owners = [], comment = None\<rparr>"
  | (comment) b where
      "parse_line l = \<lparr>type = COMMENT, pattern = None, owners = [], comment = Some b\<rparr>"
      "b = [] \<or> \<not> is_space (last b)" "set b \<subseteq> set l"
  | (rule) pat own c where
      "parse_line l = \<lparr>type = RULE, pattern = Some pat, owners = map CodeOwner own, comment = c\<rparr>"
      "is_word pat" "\<not> starts_hash pat" "\<forall>u\<in>set own. is_word u \<and> \<not> starts_hash u"
      "c = None \<or> c = Some []
       \<or> (\<exists>ts. ts \<noteq> [] \<and> (\<forall>t\<in>set ts. is_word t) \<and> c = Some (join [32] ts))"
proof -
  define t where "t = rstrip l"
  define u where "u = dropWhile is_space t"
  show thesis
  proof (cases "t = []")
    case True
    then show thesis
      by (intro blank) (simp add: parse_line_def t_def)
  next
    case ne: False
    show thesis
    proof (cases "starts_hash u")
      case True
      define b where "b = after_hash u"
      have p: "parse_line l = \<lparr>type = COMMENT, pattern = None, owners = [], comment = Some b\<rparr>"
        using ne True by (simp add: parse_line_def t_def [symmetric] u_def [symmetric] b_def)
      from True have "u \<noteq> []" by auto
      then have "last u = last t"
        unfolding u_def by (rule last_dropWhile)
      moreover from ne have "\<not> is_space (last t)"
        unfolding t_def by (rule rstrip_last)
      ultimately have l: "b = [] \<or> \<not> is_space (last b)"
        using after_hash_last [of u] by (auto simp add: b_def)
      have "set b \<subseteq> set u"
        unfolding b_def by (rule set_after_hash)
      also have "\<dots> \<subseteq> set t"
        unfolding u_def by (auto dest: set_dropWhileD)
      also have "\<dots> \<subseteq> set l"
        unfolding t_def by (rule set_rstrip)
      finally show thesis
        using p l by (intro comment)
    next
      case nh: False
      show thesis
      proof (cases "split_ws t")
        case Nil
        with ne nh show thesis
          by (intro blank) (simp add: parse_line_def t_def [symmetric] u_def [symmetric])
      next
        case (Cons pat rest)
        define own where "own = takeWhile (\<lambda>t. \<not> starts_hash t) rest"
        define com where "com = dropWhile (\<lambda>t. \<not> starts_hash t) rest"
        define c where
          "c = (if com = [] then None else Some (after_hash (join [32] com)))"
        have p: "parse_line l
                 = \<lparr>type = RULE, pattern = Some pat, owners = map CodeOwner own, comment = c\<rparr>"
          using ne nh Cons
          by (simp add: parse_line_def t_def [symmetric] u_def [symmetric] Let_def lit_space
              own_def com_def c_def)
        have words: "\<forall>x\<in>set (pat # rest). is_word x"
          using split_ws_words [of _ t] Cons by simp
        from split_ws_first_starts_hash [OF Cons] nh have sp: "\<not> starts_hash pat"
          by (simp add: u_def)
        have o: "\<forall>x\<in>set own. is_word x \<and> \<not> starts_hash x"
          using words by (auto simp add: own_def dest: set_takeWhileD)
        have cw: "\<forall>x\<in>set com. is_word x"
          using words by (auto simp add: com_def dest: set_dropWhileD)
        have cc: "c = None \<or> c = Some []
                  \<or> (\<exists>ts. ts \<noteq> [] \<and> (\<forall>t\<in>set ts. is_word t) \<and> c = Some (join [32] ts))"
        proof (cases com)
          case Nil
          then show ?thesis by (simp add: c_def)
        next
          case (Cons h cs)
          then have "dropWhile (\<lambda>t. \<not> starts_hash t) rest \<noteq> []"
            by (simp add: com_def)
          from hd_dropWhile [OF this] Cons have sh: "starts_hash h"
            by (simp add: com_def)
          from cw Cons have hw: "is_word h" and csw: "\<forall>x\<in>set cs. is_word x" by simp_all
          define ts where "ts = (if tl h = [] then cs else tl h # cs)"
          have c: "c = Some (join [32] ts)"
            using after_hash_join [OF hw sh csw] Cons by (simp add: c_def ts_def)
          have tw: "\<forall>t\<in>set ts. is_word t"
            using csw tl_word [OF hw] by (auto simp add: ts_def)
          show ?thesis
          proof (cases "ts = []")
            case True
            with c show ?thesis by simp
          next
            case False
            with c tw show ?thesis by blast
          qed
        qed
        from p words sp o cc show thesis
          by (intro rule) simp_all
      qed
    qed
  qed
qed

lemma join_words_no_newline: "\<forall>t\<in>set ts. is_word t \<Longrightarrow> 10 \<notin> set (join [32] ts)"
proof (induction ts)
  case Nil
  then show ?case by simp
next
  case (Cons t ts)
  from Cons.prems have "10 \<notin> set t"
    using is_space_simps(2) by (auto simp add: is_word_def)
  with Cons show ?case
    by (simp add: join_Cons_space del: join.simps)
qed


lemma reparse_line:
  "parse_line (format_entry (parse_line l)) = drop_empty_comment (parse_line l)"
proof (cases l rule: parse_line_shape)
  case blank
  then show ?thesis
    by (simp add: format_entry_def parse_line_empty drop_empty_comment_def)
next
  case (comment b)
  from reparse_comment [OF comment(2)] comment(1) show ?thesis
    by (simp add: drop_empty_comment_def)
next
  case (rule pat own c)
  from reparse_rule [OF rule(2-5)] rule(1) show ?thesis
    by simp
qed

lemma format_parse_line_no_newline:
  assumes "10 \<notin> set l"
  shows "10 \<notin> set (format_entry (parse_line l))"
proof (cases l rule: parse_line_shape)
  case blank
  then show ?thesis by (simp add: format_entry_def)
next
  case (comment b)
  with assms have "10 \<notin> set b" by auto
  with comment(1) show ?thesis
    by (simp add: format_entry_def lit_hash)
next
  case (rule pat own c)
  have own: "map owner_str (map CodeOwner own) = own"
    by (simp add: comp_def owner_str_def)
  have w35: "is_word [35]"
    by (simp add: is_word_def is_space_simps)
  from rule(5) consider (none) "c = None \<or> c = Some []"
    | (some) ts where "ts \<noteq> []" "\<forall>t\<in>set ts. is_word t" "c = Some (join [32] ts)"
    by blast
  then show ?thesis
  proof cases
    case none
    then have "format_entry (parse_line l) = join [32] (pat # own) \<or> format_entry (parse_line l) = []"
      using rule(1) own by (auto simp add: format_entry_def lit_space)
    moreover have "10 \<notin> set (join [32] (pat # own))"
      using rule(2,4) by (intro join_words_no_newline) simp
    ultimately show ?thesis by auto
  next
    case some
    have "format_entry (parse_line l) = join [32] ((pat # own) @ [[35, 32] @ join [32] ts])
          \<or> format_entry (parse_line l) = join [32] (pat # own)
          \<or> format_entry (parse_line l) = []"
      using rule(1) own some(3)
      by (cases "join [32] ts = []") (simp_all add: format_entry_def lit_space lit_hash Let_def)
    moreover have "join [32] ((pat # own) @ [[35, 32] @ join [32] ts])
                   = join [32] (pat # (own @ [35] # ts))"
      using join_hash_comment [OF some(1), of "pat # own"] by simp
    moreover have "10 \<notin> set (join [32] (pat # (own @ [35] # ts)))"
      using rule(2,4) some(2) w35 by (intro join_words_no_newline) auto
    moreover have "10 \<notin> set (join [32] (pat # own))"
      using rule(2,4) by (intro join_words_no_newline) simp
    ultimately show ?thesis by auto
  qed
qed

lemma parse_written_text:
  "parse_codeowners (content_text (parse_codeowners D))
     = \<lparr>entries = map drop_empty_comment (entries (parse_codeowners D))\<rparr>"
proof -
  define ls where "ls = map (\<lambda>l. format_entry (parse_line l)) (split_lines D)"
  have ne: "ls \<noteq> []"
    by (simp add: ls_def split_lines_nonempty)
  have nn: "\<forall>l\<in>set ls. 10 \<notin> set l"
    by (auto simp add: ls_def dest: split_lines_no_newline format_parse_line_no_newline)
  have "content_text (parse_codeowners D) = join [10] ls"
    by (simp add: parse_codeowners_def ls_def lit_newline comp_def)
  moreover have "split_lines (join [10] ls) = ls"
    using ne nn by (rule split_lines_join)
  ultimately show ?thesis
    by (simp add: parse_codeowners_def ls_def comp_def reparse_line)
qed

lemma write_codeowners_result:
  "write_codeowners f validate_size = Inr w \<Longrightarrow> w = content_text f"
  by (cases validate_size)
     (auto simp add: write_codeowners_unchecked write_codeowners_checked
      split: sum.splits if_splits)

lemma get_rules_drop_empty_comment:
  "get_rules \<lparr>entries = map drop_empty_comment es\<rparr>
     = map drop_empty_comment (get_rules \<lparr>entries = es\<rparr>)"
  by (induction es) (auto simp add: get_rules_def drop_empty_comment_def)

text \<open>
  C3, as amended. For every document text \<open>D\<close> for which \<open>write_codeowners\<close> returns,
  with or without the size check, parsing \<open>D\<close>, writing the result and parsing the
  written text gives the entries of \<open>parse(D)\<close> again, except that a rule whose inline
  comment is empty has no comment after the cycle: the sequence of rule patterns and
  the owners of each rule (hence the owner counts) are identical, and the inline
  comments are identical but for an empty comment, which becomes absent.
\<close>
theorem round_trip_up_to_empty_comments:
  assumes "write_codeowners (parse_codeowners D) validate_size = Inr w"
  shows "entries (parse_codeowners w) = map drop_empty_comment (entries (parse_codeowners D))
         \<and> map pattern (get_rules (parse_codeowners w))
             = map pattern (get_rules (parse_codeowners D))
         \<and> map owners (get_rules (parse_codeowners w))
             = map owners (get_rules (parse_codeowners D))
         \<and> map (\<lambda>e. length (owners e)) (get_rules (parse_codeowners w))
             = map (\<lambda>e. length (owners e)) (get_rules (parse_codeowners D))
         \<and> map comment (get_rules (parse_codeowners w))
             = map (\<lambda>e. if comment e = Some [] then None else comment e)
                 (get_rules (parse_codeowners D))"
proof -
  from write_codeowners_result [OF assms]
  have p: "parse_codeowners w
           = \<lparr>entries = map drop_empty_comment (entries (parse_codeowners D))\<rparr>"
    by (simp add: parse_written_text)
  have f: "\<lparr>entries = entries (parse_codeowners D)\<rparr> = parse_codeowners D"
    by simp
  have r: "get_rules (parse_codeowners w)
           = map drop_empty_comment (get_rules (parse_codeowners D))"
    unfolding p get_rules_drop_empty_comment f ..
  have t: "\<forall>e\<in>set (get_rules (parse_codeowners D)). type e = RULE"
    by (simp add: get_rules_def)
  have a: "entries (parse_codeowners w)
           = map drop_empty_comment (entries (parse_codeowners D))"
    by (simp add: p)
  have b: "map pattern (get_rules (parse_codeowners w))
             = map pattern (get_rules (parse_codeowners D))"
    by (simp add: r drop_empty_comment_def comp_def)
  have c: "map owners (get_rules (parse_codeowners w))
             = map owners (get_rules (parse_codeowners D))"
    by (simp add: r drop_empty_comment_def comp_def)
  have d: "map (\<lambda>e. length (owners e)) (get_rules (parse_codeowners w))
             = map (\<lambda>e. length (owners e)) (get_rules (parse_codeowners D))"
    by (simp add: r drop_empty_comment_def comp_def)
  have e: "map comment (get_rules (parse_codeowners w))
             = map (\<lambda>e. if comment e = Some [] then None else comment e)
                 (get_rules (parse_codeowners D))"
    using t by (simp add: r drop_empty_comment_def comp_def)
  from a b c d e show ?thesis by blast
qed


text \<open>Evaluating the parser on a concrete text.\<close>
lemmas parse_eval =
  parse_codeowners_def split_lines_def parse_line_def rstrip_def split_ws_def is_space_def
  get_rules_def lit_def Let_def

text \<open>
  C3 as stated fails on a rule line that ends in a bare \<open>#\<close>: \<open>"* @a #"\<close> is parsed
  to a rule with the empty inline comment, written as \<open>"* @a"\<close>, and parsed again to a
  rule with no comment.
\<close>
theorem round_trip_empty_comment_counterexample:
  "write_codeowners (parse_codeowners (lit ''* @a #'')) True = Inr (lit ''* @a'')
   \<and> map comment (get_rules (parse_codeowners (lit ''* @a #''))) = [Some []]
   \<and> map comment (get_rules (parse_codeowners (lit ''* @a''))) = [None]"
proof -
  have p: "parse_codeowners (lit ''* @a #'')
           = \<lparr>entries = [\<lparr>type = RULE, pattern = Some (lit ''*''),
                          owners = [CodeOwner (lit ''@a'')], comment = Some []\<rparr>]\<rparr>"
    by (simp add: parse_eval)
  have q: "parse_codeowners (lit ''* @a'')
           = \<lparr>entries = [\<lparr>type = RULE, pattern = Some (lit ''*''),
                          owners = [CodeOwner (lit ''@a'')], comment = None\<rparr>]\<rparr>"
    by (simp add: parse_eval)
  have w: "write_codeowners (parse_codeowners (lit ''* @a #'')) True = Inr (lit ''* @a'')"
    unfolding p
    by (simp add: write_codeowners_checked format_entry_def owner_str_def lit_def
        utf8_char_def MAX_FILE_SIZE_BYTES_def)
  from w show ?thesis
    by (simp add: p q get_rules_def)
qed

text \<open>
  A document with irregular spacing is written in normal form and parsed to the same
  patterns, owner counts and comments.
\<close>
theorem round_trip_up_to_empty_comments_witness:
  "write_codeowners (parse_codeowners (lit ''*.html   @frontend #Web pages'' @ [10, 10] @ lit ''*.md'')) True
     = Inr (lit ''*.html @frontend # Web pages'' @ [10, 10] @ lit ''*.md'')
   \<and> map pattern (get_rules (parse_codeowners
         (lit ''*.html @frontend # Web pages'' @ [10, 10] @ lit ''*.md'')))
       = map pattern (get_rules (parse_codeowners
         (lit ''*.html   @frontend #Web pages'' @ [10, 10] @ lit ''*.md'')))
   \<and> map (\<lambda>e. length (owners e)) (get_rules (parse_codeowners
         (lit ''*.html @frontend # Web pages'' @ [10, 10] @ lit ''*.md'')))
       = map (\<lambda>e. length (owners e)) (get_rules (parse_codeowners
         (lit ''*.html   @frontend #Web pages'' @ [10, 10] @ lit ''*.md'')))
   \<and> map pattern (get_rules (parse_codeowners
         (lit ''*.html   @frontend #Web pages'' @ [10, 10] @ lit ''*.md'')))
       = [Some (lit ''*.html''), Some (lit ''*.md'')]
   \<and> map (\<lambda>e. length (owners e)) (get_rules (parse_codeowners
         (lit ''*.html   @frontend #Web pages'' @ [10, 10] @ lit ''*.md'')))
       = [1, 0]
   \<and> map comment (get_rules (parse_codeowners
         (lit ''*.html   @frontend #Web pages'' @ [10, 10] @ lit ''*.md'')))
       = [Some (lit ''Web pages''), None]"
proof -
  have p: "parse_codeowners (lit ''*.html   @frontend #Web pages'' @ [10, 10] @ lit ''*.md'')
           = \<lparr>entries =
               [\<lparr>type = RULE, pattern = Some (lit ''*.html''),
                 owners = [CodeOwner (lit ''@frontend'')], comment = Some (lit ''Web pages'')\<rparr>,
                \<lparr>type = BLANK, pattern = None, owners = [], comment = None\<rparr>,
                \<lparr>type = RULE, pattern = Some (lit ''*.md''), owners = [], comment = None\<rparr>]\<rparr>"
    by (simp add: parse_eval)
  have w: "write_codeowners (parse_codeowners
             (lit ''*.html   @frontend #Web pages'' @ [10, 10] @ lit ''*.md'')) True
           = Inr (lit ''*.html @frontend # Web pages'' @ [10, 10] @ lit ''*.md'')"
    unfolding p
    by (simp add: write_codeowners_checked format_entry_def owner_str_def lit_def
        utf8_char_def MAX_FILE_SIZE_BYTES_def)
  have a: "map pattern (get_rules (parse_codeowners
         (lit ''*.html   @frontend #Web pages'' @ [10, 10] @ lit ''*.md'')))
       = [Some (lit ''*.html''), Some (lit ''*.md'')]"
    unfolding p by (simp add: get_rules_def)
  have b: "map (\<lambda>e. length (owners e)) (get_rules (parse_codeowners
         (lit ''*.html   @frontend #Web pages'' @ [10, 10] @ lit ''*.md'')))
       = [1, 0]"
    unfolding p by (simp add: get_rules_def)
  have c: "map comment (get_rules (parse_codeowners
         (lit ''*.html   @frontend #Web pages'' @ [10, 10] @ lit ''*.md'')))
       = [Some (lit ''Web pages''), None]"
    unfolding p by (simp add: get_rules_def)
  from round_trip_up_to_empty_comments [OF w] w a b c show ?thesis
    by blast
qed

end
